theory Spec2Isabelle
  imports Complex_Main
begin

section \<open>Numbers of the simulation engine\<close>

text \<open>
  The engine computes with JavaScript numbers. The inputs of every function below are
  finite numbers, modelled as \<^typ>\<open>real\<close>; arithmetic on finite values is exact
  (rounding, overflow and underflow of IEEE doubles are outside the model). Where the
  source can leave the finite numbers (a division by zero, a power of zero, the logarithm
  of zero) the result is a \<open>jsnum\<close>: a finite value, one of the two infinities, or NaN,
  with the special-value rules of the language. The sign of zero is not represented:
  every zero that the source divides by is \<open>+0\<close> (a difference of equal values, an
  absolute value, or \<open>1 + (-1)\<close>), and the model divides by zero accordingly.
\<close>

datatype jsnum = Fin real | PInf | NInf | NaN

fun js_neg :: "jsnum \<Rightarrow> jsnum" where
  "js_neg (Fin a) = Fin (- a)"
| "js_neg PInf = NInf"
| "js_neg NInf = PInf"
| "js_neg NaN = NaN"

fun js_add :: "jsnum \<Rightarrow> jsnum \<Rightarrow> jsnum" where
  "js_add (Fin a) (Fin b) = Fin (a + b)"
| "js_add NaN _ = NaN"
| "js_add _ NaN = NaN"
| "js_add PInf NInf = NaN"
| "js_add NInf PInf = NaN"
| "js_add PInf _ = PInf"
| "js_add _ PInf = PInf"
| "js_add NInf _ = NInf"
| "js_add _ NInf = NInf"

definition js_sub :: "jsnum \<Rightarrow> jsnum \<Rightarrow> jsnum" where
  "js_sub x y = js_add x (js_neg y)"

fun js_mul :: "jsnum \<Rightarrow> jsnum \<Rightarrow> jsnum" where
  "js_mul (Fin a) (Fin b) = Fin (a * b)"
| "js_mul NaN _ = NaN"
| "js_mul _ NaN = NaN"
| "js_mul (Fin a) PInf = (if a = 0 then NaN else if 0 < a then PInf else NInf)"
| "js_mul (Fin a) NInf = (if a = 0 then NaN else if 0 < a then NInf else PInf)"
| "js_mul PInf (Fin b) = (if b = 0 then NaN else if 0 < b then PInf else NInf)"
| "js_mul NInf (Fin b) = (if b = 0 then NaN else if 0 < b then NInf else PInf)"
| "js_mul PInf PInf = PInf"
| "js_mul PInf NInf = NInf"
| "js_mul NInf PInf = NInf"
| "js_mul NInf NInf = PInf"

fun js_div :: "jsnum \<Rightarrow> jsnum \<Rightarrow> jsnum" where
  "js_div (Fin a) (Fin b) =
     (if b = 0 then (if a = 0 then NaN else if 0 < a then PInf else NInf)
      else Fin (a / b))"
| "js_div NaN _ = NaN"
| "js_div _ NaN = NaN"
| "js_div (Fin a) PInf = Fin 0"
| "js_div (Fin a) NInf = Fin 0"
| "js_div PInf (Fin b) = (if 0 \<le> b then PInf else NInf)"
| "js_div NInf (Fin b) = (if 0 \<le> b then NInf else PInf)"
| "js_div PInf PInf = NaN"
| "js_div PInf NInf = NaN"
| "js_div NInf PInf = NaN"
| "js_div NInf NInf = NaN"

fun js_abs :: "jsnum \<Rightarrow> jsnum" where
  "js_abs (Fin a) = Fin \<bar>a\<bar>"
| "js_abs PInf = PInf"
| "js_abs NInf = PInf"
| "js_abs NaN = NaN"

text \<open>The comparison \<open>x < y\<close>: false as soon as one side is NaN.\<close>

fun js_lt :: "jsnum \<Rightarrow> jsnum \<Rightarrow> bool" where
  "js_lt (Fin a) (Fin b) = (a < b)"
| "js_lt NaN _ = False"
| "js_lt _ NaN = False"
| "js_lt _ NInf = False"
| "js_lt PInf _ = False"
| "js_lt NInf _ = True"
| "js_lt _ PInf = True"

text \<open>
  \<open>Math.pow(x, e)\<close> for a finite exponent \<open>e\<close>. A positive finite base is the real
  power; a negative finite base has a value for integer exponents only.
\<close>

definition js_pow :: "jsnum \<Rightarrow> real \<Rightarrow> jsnum" where
  "js_pow x e =
     (if e = 0 then Fin 1
      else case x of
        NaN \<Rightarrow> NaN
      | PInf \<Rightarrow> (if 0 < e then PInf else Fin 0)
      | NInf \<Rightarrow> (if 0 < e then (if e \<in> \<int> \<and> odd \<lfloor>e\<rfloor> then NInf else PInf) else Fin 0)
      | Fin b \<Rightarrow>
          (if 0 < b then Fin (b powr e)
           else if b = 0 then (if 0 < e then Fin 0 else PInf)
           else if e \<in> \<int> then Fin (b powi \<lfloor>e\<rfloor>)
           else NaN))"



section \<open>The calculation library (utils/calculations.ts)\<close>

subsection \<open>Internal rate of return\<close>

text \<open>
  One pass of the inner loop of \<open>calculateIrr\<close> over the pairs (cash flow, time):
  it accumulates the net present value and its derivative at the current guess.
\<close>

definition npvStep :: "jsnum \<Rightarrow> jsnum \<times> jsnum \<Rightarrow> real \<times> real \<Rightarrow> jsnum \<times> jsnum" where
  "npvStep guess acc ct =
     (case acc of (npv, derivativeNpv) \<Rightarrow> case ct of (cf, t) \<Rightarrow>
        (let factor = js_pow (js_add (Fin 1) guess) (- t)
         in (js_add npv (js_mul (Fin cf) factor),
             js_sub derivativeNpv
               (js_mul (Fin (t * cf)) (js_pow (js_add (Fin 1) guess) (- t - 1))))))"

definition npvAndDerivative :: "real list \<Rightarrow> real list \<Rightarrow> jsnum \<Rightarrow> jsnum \<times> jsnum" where
  "npvAndDerivative cashFlows ts guess =
     foldl (npvStep guess) (Fin 0, Fin 0) (zip cashFlows ts)"

text \<open>The net present value of a series discounted at a rate, as the loop computes it.\<close>

definition netPresentValue :: "real list \<Rightarrow> real list \<Rightarrow> jsnum \<Rightarrow> jsnum" where
  "netPresentValue cashFlows ts rate = fst (npvAndDerivative cashFlows ts rate)"

definition tolerance :: real where
  "tolerance = 1 / 10000000"

definition maxIterations :: nat where
  "maxIterations = 1000"

text \<open>The Newton update \<open>guess - npv / derivativeNpv\<close>.\<close>

definition newtonStep :: "real list \<Rightarrow> real list \<Rightarrow> jsnum \<Rightarrow> jsnum" where
  "newtonStep cashFlows ts guess =
     (case npvAndDerivative cashFlows ts guess of (npv, derivativeNpv) \<Rightarrow>
        js_sub guess (js_div npv derivativeNpv))"

text \<open>
  The outer loop, with the number of iterations still allowed as first argument. The
  result is the returned value (\<open>None\<close> is \<open>null\<close>) together with the number of
  loop iterations that were performed.
\<close>

primrec irrLoop :: "nat \<Rightarrow> real list \<Rightarrow> real list \<Rightarrow> jsnum \<Rightarrow> jsnum option \<times> nat" where
  "irrLoop 0 cashFlows ts guess = (None, 0)"
| "irrLoop (Suc k) cashFlows ts guess =
     (if js_lt (js_abs (netPresentValue cashFlows ts guess)) (Fin tolerance) then (Some guess, 1)
      else
        (let newGuess = newtonStep cashFlows ts guess
         in if js_lt (js_abs (js_sub newGuess guess)) (Fin tolerance) then (Some newGuess, 1)
            else if js_lt newGuess (Fin (- 1)) then (None, 1)
            else (case irrLoop k cashFlows ts newGuess of (r, n) \<Rightarrow> (r, Suc n))))"

text \<open>\<open>timePoints || cashFlows.map((_, i) => i)\<close>: every array, also the empty one, is truthy.\<close>

definition irrTimes :: "real list \<Rightarrow> real list option \<Rightarrow> real list" where
  "irrTimes cashFlows timePoints =
     (case timePoints of Some tp \<Rightarrow> tp | None \<Rightarrow> map real [0..<length cashFlows])"

definition calculateIrrCounted :: "real list \<Rightarrow> real list option \<Rightarrow> jsnum option \<times> nat" where
  "calculateIrrCounted cashFlows timePoints =
     (if length cashFlows < 2 then (None, 0)
      else
        (let ts = irrTimes cashFlows timePoints
         in if length cashFlows \<noteq> length ts then (None, 0)
            else irrLoop maxIterations cashFlows ts (Fin (1 / 10))))"

definition calculateIrr :: "real list \<Rightarrow> real list option \<Rightarrow> jsnum option" where
  "calculateIrr cashFlows timePoints = fst (calculateIrrCounted cashFlows timePoints)"

subsection \<open>Equity multiple\<close>




subsection \<open>Maximum drawdown\<close>

text \<open>The loop body of \<open>calculateMaxDrawdown\<close>, on the pair (maxDrawdown, peak).\<close>

definition drawdownStep :: "real \<times> real \<Rightarrow> real \<Rightarrow> real \<times> real" where
  "drawdownStep s v =
     (case s of (maxDrawdown, peak) \<Rightarrow>
        if v > peak then (maxDrawdown, v)
        else (max maxDrawdown (if peak > 0 then (peak - v) / peak else 0), peak))"

definition calculateMaxDrawdown :: "real list \<Rightarrow> real" where
  "calculateMaxDrawdown vs =
     (if length vs < 2 then 0
      else fst (foldl drawdownStep (0, hd vs) (tl vs)))"

subsection \<open>Catch-up distribution\<close>



subsection \<open>Array reads\<close>


subsection \<open>Value at risk\<close>



subsection \<open>Percentile\<close>




section \<open>The simulation worker (index.ts)\<close>

subsection \<open>Memoization\<close>






subsection \<open>Random values\<close>



subsection \<open>Messages and responses\<close>

datatype SimulationResponseType =
  MONTE_CARLO_RESULTS | PORTFOLIO_PROJECTIONS | SENSITIVITY_RESULTS | COMPARISON_RESULTS
| PROGRESS | ERROR | CANCELLED | CACHE_CLEARED








subsection \<open>The Monte Carlo run\<close>










subsection \<open>The message handler\<close>









subsection \<open>Example requests\<close>




section \<open>Properties of the calculation library\<close>

subsection \<open>Catch-up distribution\<close>


subsection \<open>Internal rate of return\<close>

lemma js_pow_pos_int: "0 < b \<Longrightarrow> js_pow (Fin b) (of_int n) = Fin (b powi n)"
  by (auto simp: js_pow_def powr_real_of_int')

lemma irrLoop_residual:
  "0 < k \<Longrightarrow> js_lt (js_abs (netPresentValue cf ts g)) (Fin tolerance) \<Longrightarrow>
   irrLoop k cf ts g = (Some g, 1)"
  by (cases k) simp_all

lemma irrLoop_small_step:
  "0 < k \<Longrightarrow> \<not> js_lt (js_abs (netPresentValue cf ts g)) (Fin tolerance) \<Longrightarrow>
   js_lt (js_abs (js_sub (newtonStep cf ts g) g)) (Fin tolerance) \<Longrightarrow>
   irrLoop k cf ts g = (Some (newtonStep cf ts g), 1)"
  by (cases k) (simp_all add: Let_def)

text \<open>Whatever the loop returns passed one of its two tests.\<close>

lemma irrLoop_returns:
  "irrLoop k cf ts g = (Some r, n) \<Longrightarrow>
     js_lt (js_abs (netPresentValue cf ts r)) (Fin tolerance)
     \<or> (\<exists>g'. r = newtonStep cf ts g'
            \<and> \<not> js_lt (js_abs (netPresentValue cf ts g')) (Fin tolerance)
            \<and> js_lt (js_abs (js_sub r g')) (Fin tolerance))"
proof (induction k arbitrary: g n)
  case 0
  then show ?case by simp
next
  case (Suc k)
  show ?case
  proof (cases "js_lt (js_abs (netPresentValue cf ts g)) (Fin tolerance)")
    case True
    with Suc.prems have "r = g" by simp
    with True show ?thesis by simp
  next
    case res: False
    show ?thesis
    proof (cases "js_lt (js_abs (js_sub (newtonStep cf ts g) g)) (Fin tolerance)")
      case True
      with res Suc.prems have "r = newtonStep cf ts g" by (simp add: Let_def)
      with res True show ?thesis by blast
    next
      case False
      with res Suc.prems obtain m where "irrLoop k cf ts (newtonStep cf ts g) = (Some r, m)"
        by (auto simp: Let_def split: if_splits prod.splits)
      then show ?thesis by (rule Suc.IH)
    qed
  qed
qed

text \<open>The series \<open>[-100, 110]\<close> has the rate 0.1 at the first residual test.\<close>

lemma npv_small_series:
  "npvAndDerivative [- 100, 110] [0, 1] (Fin (1 / 10)) = (Fin 0, Fin (- 1000 / 11))"
  using js_pow_pos_int[of "11 / 10" "- 1"] js_pow_pos_int[of "11 / 10" "- 2"]
    js_pow_pos_int[of "11 / 10" 0]
  by (simp add: npvAndDerivative_def npvStep_def js_sub_def power_int_minus power2_eq_square)

lemma irr_small_series: "calculateIrr [- 100, 110] None = Some (Fin (1 / 10))"
proof -
  have "js_lt (js_abs (netPresentValue [- 100, 110] [0, 1] (Fin (1 / 10)))) (Fin tolerance)"
    using npv_small_series by (simp add: netPresentValue_def tolerance_def)
  then have "irrLoop maxIterations [- 100, 110] [0, 1] (Fin (1 / 10)) = (Some (Fin (1 / 10)), 1)"
    by (intro irrLoop_residual) (simp_all add: maxIterations_def)
  then show ?thesis
    by (simp add: calculateIrr_def calculateIrrCounted_def irrTimes_def upt_conv_Cons)
qed

text \<open>
  A series of two large flows: the first Newton step is shorter than the tolerance, so
  the new guess is returned, while the net present value there is about 0.0081.
\<close>

lemma npv_large_series:
  "npvAndDerivative [- 999999910000, 1100000000000] [0, 1] (Fin (1 / 10))
     = (Fin 90000, Fin (- 10000000000000 / 11))"
  using js_pow_pos_int[of "11 / 10" "- 1"] js_pow_pos_int[of "11 / 10" "- 2"]
    js_pow_pos_int[of "11 / 10" 0]
  by (simp add: npvAndDerivative_def npvStep_def js_sub_def power_int_minus power2_eq_square)

lemma irr_large_series:
  "calculateIrr [- 999999910000, 1100000000000] None = Some (Fin (100000099 / 1000000000))"
proof -
  let ?cf = "[- 999999910000, 1100000000000] :: real list"
  have ns: "newtonStep ?cf [0, 1] (Fin (1 / 10)) = Fin (100000099 / 1000000000)"
    using npv_large_series by (simp add: newtonStep_def js_sub_def)
  have a: "\<not> js_lt (js_abs (netPresentValue ?cf [0, 1] (Fin (1 / 10)))) (Fin tolerance)"
    using npv_large_series by (simp add: netPresentValue_def tolerance_def)
  have b: "js_lt (js_abs (js_sub (newtonStep ?cf [0, 1] (Fin (1 / 10))) (Fin (1 / 10)))) (Fin tolerance)"
    by (simp add: ns js_sub_def tolerance_def)
  have "irrLoop maxIterations ?cf [0, 1] (Fin (1 / 10))
          = (Some (newtonStep ?cf [0, 1] (Fin (1 / 10))), 1)"
    using a b by (intro irrLoop_small_step) (simp_all add: maxIterations_def)
  then show ?thesis
    by (simp add: calculateIrr_def calculateIrrCounted_def irrTimes_def ns upt_conv_Cons)
qed

lemma npv_large_series_at_result:
  "netPresentValue [- 999999910000, 1100000000000] [0, 1] (Fin (100000099 / 1000000000))
     = Fin (810000 / 100000009)"
  using js_pow_pos_int[of "1100000099 / 1000000000" "- 1"]
    js_pow_pos_int[of "1100000099 / 1000000000" "- 2"]
    js_pow_pos_int[of "1100000099 / 1000000000" 0]
  by (simp add: netPresentValue_def npvAndDerivative_def npvStep_def js_sub_def
      power_int_minus power2_eq_square)

text \<open>
  C1, as stated, fails: \<open>calculateIrr\<close> returns a rate for the series
  \<open>[-999999910000, 1100000000000]\<close> (times 0 and 1), and the net present value of the
  series at that rate is not within the tolerance of zero.
\<close>

theorem irr_npv_outside_tolerance:
  "calculateIrr [- 999999910000, 1100000000000] None = Some (Fin (100000099 / 1000000000))
   \<and> \<not> js_lt (js_abs (netPresentValue [- 999999910000, 1100000000000]
                  (irrTimes [- 999999910000, 1100000000000] None)
                  (Fin (100000099 / 1000000000)))) (Fin tolerance)"
proof -
  have "irrTimes [- 999999910000, 1100000000000] None = [0, 1]"
    by (simp add: irrTimes_def upt_conv_Cons)
  then show ?thesis
    using irr_large_series npv_large_series_at_result by (simp add: tolerance_def)
qed

text \<open>
  C1, amended. When \<open>calculateIrr\<close> returns a rate \<open>r\<close>, then either the net present
  value of the series at \<open>r\<close> is within the tolerance of zero (\<open>r\<close> passed the residual
  test), or \<open>r\<close> is the Newton update of a guess \<open>g\<close> that failed the residual test and
  lies within the tolerance of \<open>g\<close> (\<open>r\<close> passed the step test; its own net present
  value is not examined).
\<close>

theorem calculateIrr_returns:
  assumes "calculateIrr cashFlows timePoints = Some r"
  shows "js_lt (js_abs (netPresentValue cashFlows (irrTimes cashFlows timePoints) r)) (Fin tolerance)
     \<or> (\<exists>g. r = newtonStep cashFlows (irrTimes cashFlows timePoints) g
            \<and> \<not> js_lt (js_abs (netPresentValue cashFlows (irrTimes cashFlows timePoints) g))
                  (Fin tolerance)
            \<and> js_lt (js_abs (js_sub r g)) (Fin tolerance))"
proof -
  from assms obtain n where
    "irrLoop maxIterations cashFlows (irrTimes cashFlows timePoints) (Fin (1 / 10)) = (Some r, n)"
    by (auto simp: calculateIrr_def calculateIrrCounted_def Let_def split: if_splits)
       (metis prod.collapse)
  then show ?thesis by (rule irrLoop_returns)
qed

theorem calculateIrr_returns_witness:
  "calculateIrr [- 100, 110] None = Some (Fin (1 / 10))
   \<and> (js_lt (js_abs (netPresentValue [- 100, 110] (irrTimes [- 100, 110] None) (Fin (1 / 10))))
         (Fin tolerance)
      \<or> (\<exists>g. Fin (1 / 10) = newtonStep [- 100, 110] (irrTimes [- 100, 110] None) g
            \<and> \<not> js_lt (js_abs (netPresentValue [- 100, 110] (irrTimes [- 100, 110] None) g))
                  (Fin tolerance)
            \<and> js_lt (js_abs (js_sub (Fin (1 / 10)) g)) (Fin tolerance)))"
  using calculateIrr_returns[OF irr_small_series] irr_small_series by (rule conjI[rotated])

text \<open>
  C10. For every series with fewer than two cash flows, and for every call that supplies
  time points whose number differs from the number of cash flows, \<open>calculateIrr\<close> returns
  \<open>null\<close> and performs no iteration of the Newton loop.
\<close>

theorem calculateIrr_guard:
  assumes "length cashFlows < 2 \<or> (\<exists>tp. timePoints = Some tp \<and> length tp \<noteq> length cashFlows)"
  shows "calculateIrrCounted cashFlows timePoints = (None, 0)
         \<and> calculateIrr cashFlows timePoints = None"
  using assms by (auto simp: calculateIrr_def calculateIrrCounted_def irrTimes_def)

theorem calculateIrr_guard_witness:
  "length [5 :: real] < 2 \<and> calculateIrrCounted [5] None = (None, 0)
   \<and> calculateIrr [5] None = None
   \<and> length [0 :: real] \<noteq> length [- 100, 110 :: real]
   \<and> calculateIrrCounted [- 100, 110] (Some [0]) = (None, 0)
   \<and> calculateIrr [- 100, 110] (Some [0]) = None"
proof -
  have a: "length [5 :: real] < 2" by simp
  have b: "length [0 :: real] \<noteq> length [- 100, 110 :: real]" by simp
  from a have c: "calculateIrrCounted [5] None = (None, 0) \<and> calculateIrr [5] None = None"
    by (intro calculateIrr_guard) simp
  from b have d: "calculateIrrCounted [- 100, 110] (Some [0]) = (None, 0)
      \<and> calculateIrr [- 100, 110] (Some [0]) = None"
    by (intro calculateIrr_guard) simp
  from a b c d show ?thesis by blast
qed

subsection \<open>Equity multiple\<close>









subsection \<open>Maximum drawdown\<close>

lemma drawdown_fold_nonneg: "0 \<le> m \<Longrightarrow> 0 \<le> fst (foldl drawdownStep (m, p) vs)"
  by (induction vs arbitrary: m p) (auto simp: drawdownStep_def)

lemma drawdown_fold_le_one:
  "0 \<le> m \<Longrightarrow> m \<le> 1 \<Longrightarrow> \<forall>v\<in>set vs. 0 \<le> v \<Longrightarrow> fst (foldl drawdownStep (m, p) vs) \<le> 1"
proof (induction vs arbitrary: m p)
  case Nil
  then show ?case by simp
next
  case (Cons v vs)
  show ?case
  proof (cases "v > p")
    case True
    then show ?thesis using Cons by (simp add: drawdownStep_def)
  next
    case False
    have "(if p > 0 then (p - v) / p else 0) \<le> 1"
      using Cons.prems by (auto simp: field_simps)
    moreover have "0 \<le> (if p > 0 then (p - v) / p else 0)"
      using False by auto
    ultimately show ?thesis
      using False Cons by (simp add: drawdownStep_def)
  qed
qed

lemma drawdown_fold_sorted: "sorted (p # vs) \<Longrightarrow> fst (foldl drawdownStep (0, p) vs) = 0"
proof (induction vs arbitrary: p)
  case Nil
  then show ?case by simp
next
  case (Cons v vs)
  then have pv: "p \<le> v" and sv: "sorted (v # vs)" by auto
  show ?case
  proof (cases "v > p")
    case True
    then show ?thesis using Cons.IH[OF sv] by (simp add: drawdownStep_def)
  next
    case False
    with pv have "v = p" by simp
    then show ?thesis using Cons.IH[OF sv] by (simp add: drawdownStep_def)
  qed
qed

text \<open>
  C6, as stated, fails: for the value series \<open>[100, -50]\<close> the maximum drawdown is 1.5,
  outside the interval from 0 to 1.
\<close>

theorem maxDrawdown_above_one:
  "\<not> (0 \<le> calculateMaxDrawdown [100, - 50] \<and> calculateMaxDrawdown [100, - 50] \<le> 1)"
  by (simp add: calculateMaxDrawdown_def drawdownStep_def)

text \<open>
  C6, amended. For every value series \<open>calculateMaxDrawdown\<close> returns a value that is at
  least 0; for every value series without negative values the result is at most 1; and
  for every monotonically non-decreasing value series the result is exactly 0.
\<close>

theorem maxDrawdown_range:
  "0 \<le> calculateMaxDrawdown vs
   \<and> ((\<forall>v\<in>set vs. 0 \<le> v) \<longrightarrow> calculateMaxDrawdown vs \<le> 1)
   \<and> (sorted vs \<longrightarrow> calculateMaxDrawdown vs = 0)"
proof (cases "length vs < 2")
  case True
  then show ?thesis by (simp add: calculateMaxDrawdown_def)
next
  case False
  then obtain p ws where vs: "vs = p # ws" by (cases vs) auto
  have "0 \<le> fst (foldl drawdownStep (0, p) ws)"
    by (rule drawdown_fold_nonneg) simp
  moreover have "(\<forall>v\<in>set vs. 0 \<le> v) \<longrightarrow> fst (foldl drawdownStep (0, p) ws) \<le> 1"
    using drawdown_fold_le_one[of 0 ws p] vs by simp
  moreover have "sorted vs \<longrightarrow> fst (foldl drawdownStep (0, p) ws) = 0"
    using drawdown_fold_sorted[of p ws] vs by blast
  ultimately show ?thesis
    using False vs by (simp add: calculateMaxDrawdown_def)
qed

theorem maxDrawdown_range_witness:
  "(0 :: real) \<le> 100 \<and> (0 :: real) \<le> 120 \<and> (0 :: real) \<le> 90
   \<and> 0 \<le> calculateMaxDrawdown [100, 120, 90]
   \<and> calculateMaxDrawdown [100, 120, 90] \<le> 1
   \<and> sorted [1, 2, 3 :: real]
   \<and> calculateMaxDrawdown [1, 2, 3] = 0"
proof -
  have a: "\<forall>v\<in>set [100, 120, 90 :: real]. 0 \<le> v" by simp
  have b: "sorted [1, 2, 3 :: real]" by simp
  from maxDrawdown_range[of "[100, 120, 90]"] maxDrawdown_range[of "[1, 2, 3]"] a b
  show ?thesis by simp
qed

subsection \<open>Value at risk\<close>






subsection \<open>Percentile\<close>











section \<open>Properties of the worker\<close>

subsection \<open>The Monte Carlo run\<close>

















subsection \<open>The message handler\<close>











subsection \<open>Memoized rate of return\<close>






end
